theory Spec2Isabelle
  imports Main "HOL-Library.Sublist" "HOL-Library.Word" "HOL-Library.Monad_Syntax"
begin

unbundle bit_operations_syntax

section \<open>Texts\<close>

text \<open>
  A Python \<open>str\<close> is modelled as a \<open>string\<close>, one \<open>char\<close> per code point; the model
  covers the texts whose code points lie below 256.  Python's \<open>str.strip()\<close> and the
  regular-expression class \<open>\s\<close> use the same whitespace test; below 256 it holds for
  the code points 9 to 13, 28 to 32, 133 and 160.
\<close>

definition isspace :: "char \<Rightarrow> bool" where
  "isspace c = (let n = (of_char c :: nat) in
     (9 \<le> n \<and> n \<le> 13) \<or> (28 \<le> n \<and> n \<le> 32) \<or> n = 133 \<or> n = 160)"

definition strip :: "string \<Rightarrow> string" where
  "strip s = rev (dropWhile isspace (rev (dropWhile isspace s)))"

section \<open>Regular expressions\<close>

text \<open>
  A pattern is modelled by its matcher: given the text from some position on, the matcher
  returns the captured groups and the length of the match that starts at that position,
  or \<open>None\<close>.  Every pattern of the two scripts starts with a literal, so no match is
  empty.  \<open>re.finditer\<close> and \<open>re.sub\<close> scan from left to right, take the match at the
  first position that has one and go on behind it.
\<close>

type_synonym 'g matcher = "string \<Rightarrow> ('g \<times> nat) option"

function finditer :: "'g matcher \<Rightarrow> nat \<Rightarrow> string \<Rightarrow> (nat \<times> nat \<times> 'g) list" where
  "finditer m pos [] = []"
| "finditer m pos (c # cs) =
     (case m (c # cs) of
        None \<Rightarrow> finditer m (pos + 1) cs
      | Some (g, n) \<Rightarrow> (pos, pos + n, g) # finditer m (pos + n) (drop (n - 1) cs))"
  by pat_completeness auto
termination
  by (relation "measure (\<lambda>(m, pos, s). length s)") auto

function re_sub :: "'g matcher \<Rightarrow> ('g \<Rightarrow> string) \<Rightarrow> string \<Rightarrow> string" where
  "re_sub m repl [] = []"
| "re_sub m repl (c # cs) =
     (case m (c # cs) of
        None \<Rightarrow> c # re_sub m repl cs
      | Some (g, n) \<Rightarrow> repl g @ re_sub m repl (drop (n - 1) cs))"
  by pat_completeness auto
termination
  by (relation "measure (\<lambda>(m, repl, s). length s)") auto

text \<open>
  The pieces of a pattern.  \<open>lit\<close> matches a literal and returns the rest of the text.
  A greedy repetition of a character class is the longest run of characters of the
  class (\<open>takeWhile\<close>); in every pattern below the element behind such a repetition
  starts with a character outside the class, so a shorter run never leads to a match
  and the longest run is the only candidate.
\<close>

definition lit :: "string \<Rightarrow> string \<Rightarrow> string option" where
  "lit l s = (if prefix l s then Some (drop (length l) s) else None)"

definition nonempty :: "string \<Rightarrow> unit option" where
  "nonempty g = (if g = [] then None else Some ())"

text \<open>\<open>\.version\(([^)]+)\)\<close>\<close>

definition version_pattern :: "string matcher" where
  "version_pattern s = do {
     r \<leftarrow> lit ''.version('' s;
     let g = takeWhile (\<lambda>c. c \<noteq> CHR '')'') r;
     _ \<leftarrow> nonempty g;
     r \<leftarrow> lit '')'' (drop (length g) r);
     Some (g, length s - length r)
   }"

text \<open>\<open>\.inputs\(\[([^\]]+)\]\)\<close> and \<open>\.outputs\(\[([^\]]+)\]\)\<close>, by the method name.\<close>

definition list_call_pattern :: "string \<Rightarrow> string matcher" where
  "list_call_pattern name s = do {
     r \<leftarrow> lit (''.'' @ name @ ''(['') s;
     let g = takeWhile (\<lambda>c. c \<noteq> CHR '']'') r;
     _ \<leftarrow> nonempty g;
     r \<leftarrow> lit ''])'' (drop (length g) r);
     Some (g, length s - length r)
   }"

text \<open>\<open>\.properties\(\[\<close> and \<open>NodeProperty::builder\(\)\<close>: literals.\<close>

definition literal_pattern :: "string \<Rightarrow> unit matcher" where
  "literal_pattern l s = do {
     r \<leftarrow> lit l s;
     Some ((), length s - length r)
   }"

text \<open>
  \<open>NodePropertyKindOptions::builder\(\)([^.]*?)(?=\s*[,)])\<close>.  The lookahead holds
  where the text continues, behind any whitespace, with a comma or a closing
  parenthesis.  The group is lazy: it is the shortest run of characters other than the
  dot behind which the lookahead holds.  (\<open>re.DOTALL\<close> changes the meaning of an
  unbracketed dot only; the pattern has none.)
\<close>

definition lookahead_sep :: "string \<Rightarrow> bool" where
  "lookahead_sep s =
     (case dropWhile isspace s of [] \<Rightarrow> False | c # _ \<Rightarrow> c = CHR '','' \<or> c = CHR '')'')"

fun lazy_no_dot :: "string \<Rightarrow> nat option" where
  "lazy_no_dot [] = (if lookahead_sep [] then Some 0 else None)"
| "lazy_no_dot (c # cs) =
     (if lookahead_sep (c # cs) then Some 0
      else if c = CHR ''.'' then None
      else map_option Suc (lazy_no_dot cs))"

definition kind_options_pattern :: "string matcher" where
  "kind_options_pattern s = do {
     r \<leftarrow> lit ''NodePropertyKindOptions::builder()'' s;
     k \<leftarrow> lazy_no_dot r;
     Some (take k r, length s - length r + k)
   }"

text \<open>\<open>let\s+definition\s*=\s*base\?\s*;\<close>\<close>

definition base_pattern :: "unit matcher" where
  "base_pattern s = do {
     r \<leftarrow> lit ''let'' s;
     _ \<leftarrow> nonempty (takeWhile isspace r);
     r \<leftarrow> lit ''definition'' (dropWhile isspace r);
     r \<leftarrow> lit ''='' (dropWhile isspace r);
     r \<leftarrow> lit ''base?'' (dropWhile isspace r);
     r \<leftarrow> lit '';'' (dropWhile isspace r);
     Some ((), length s - length r)
   }"

text \<open>\<open>NodeDefinition::new\(\s*"([^"]+)"\s*,\s*"([^"]+)"\s*\)\<close>\<close>

definition new_pattern :: "(string \<times> string) matcher" where
  "new_pattern s = do {
     r \<leftarrow> lit ''NodeDefinition::new('' s;
     r \<leftarrow> lit [CHR 0x22] (dropWhile isspace r);
     let g1 = takeWhile (\<lambda>c. c \<noteq> CHR 0x22) r;
     _ \<leftarrow> nonempty g1;
     r \<leftarrow> lit [CHR 0x22] (drop (length g1) r);
     r \<leftarrow> lit '','' (dropWhile isspace r);
     r \<leftarrow> lit [CHR 0x22] (dropWhile isspace r);
     let g2 = takeWhile (\<lambda>c. c \<noteq> CHR 0x22) r;
     _ \<leftarrow> nonempty g2;
     r \<leftarrow> lit [CHR 0x22] (drop (length g2) r);
     r \<leftarrow> lit '')'' (dropWhile isspace r);
     Some ((g1, g2), length s - length r)
   }"

section \<open>Script A, rule 4: the splitting of a property list\<close>

text \<open>
  Lines 69 to 99 of \<open>fix_node_definitions.py\<close>.  The loop runs over the characters
  strictly between the opening and the closing bracket of \<open>properties_content\<close>; its
  state is the two counters, the item being collected and the items found so far.
  A separating comma is appended to \<open>current_item\<close> and removed again by
  \<open>current_item[:-1]\<close>.
\<close>

fun split_loop :: "string \<Rightarrow> int \<Rightarrow> int \<Rightarrow> string \<Rightarrow> string list \<Rightarrow> string list" where
  "split_loop [] bracket_count paren_count current_item properties_items =
     (if strip current_item \<noteq> [] then properties_items @ [strip current_item]
      else properties_items)"
| "split_loop (c # cs) bracket_count paren_count current_item properties_items =
     (if c = CHR ''['' then
        split_loop cs (bracket_count + 1) paren_count (current_item @ [c]) properties_items
      else if c = CHR '']'' then
        split_loop cs (bracket_count - 1) paren_count (current_item @ [c]) properties_items
      else if c = CHR ''('' then
        split_loop cs bracket_count (paren_count + 1) (current_item @ [c]) properties_items
      else if c = CHR '')'' then
        split_loop cs bracket_count (paren_count - 1) (current_item @ [c]) properties_items
      else if c = CHR '','' \<and> bracket_count = 0 \<and> paren_count = 0 then
        split_loop cs bracket_count paren_count []
          (properties_items @ [strip (butlast (current_item @ [c]))])
      else
        split_loop cs bracket_count paren_count (current_item @ [c]) properties_items)"

text \<open>The items of the text between the outer brackets.\<close>

definition split_items :: "string \<Rightarrow> string list" where
  "split_items inner = split_loop inner 0 0 [] []"

text \<open>
  Lines 51 to 63: the search for the closing bracket, from the opening bracket of the
  match on.  The text is the part of \<open>content\<close> from \<open>pos\<close> on; the result is
  \<open>end_pos\<close>, or \<open>None\<close> when the loop ends without setting it.
\<close>

fun find_end :: "string \<Rightarrow> int \<Rightarrow> nat \<Rightarrow> nat option" where
  "find_end [] bracket_count pos = None"
| "find_end (c # cs) bracket_count pos =
     (if c = CHR ''['' then find_end cs (bracket_count + 1) (pos + 1)
      else if c = CHR '']'' then
        (if bracket_count - 1 = 0 then Some (pos + 2)
         else find_end cs (bracket_count - 1) (pos + 1))
      else find_end cs bracket_count (pos + 1))"

text \<open>Python's slice \<open>s[i:j]\<close> for \<open>0 \<le> i\<close> and \<open>0 \<le> j\<close>.\<close>

definition slice :: "'a list \<Rightarrow> nat \<Rightarrow> nat \<Rightarrow> 'a list" where
  "slice s i j = drop i (take j s)"

text \<open>Lines 101 to 105: one call for each item that is not blank.\<close>

definition new_calls :: "string list \<Rightarrow> string" where
  "new_calls properties_items =
     concat (map (\<lambda>item. ''.add_property('' @ strip item @ '')'')
               (filter (\<lambda>item. strip item \<noteq> []) properties_items))"

text \<open>
  Lines 49 to 108: the body of the loop, for the match from \<open>start_pos\<close> to
  \<open>match_end\<close>.  The items are read from \<open>properties_content[1 : len - 1]\<close>.
\<close>

definition fix_properties_at :: "nat \<times> nat \<times> unit \<Rightarrow> string \<Rightarrow> string" where
  "fix_properties_at mt content =
     (let start_pos = fst mt; match_end = fst (snd mt) in
      case find_end (drop (match_end - 1) content) 0 (match_end - 1) of
        None \<Rightarrow> content
      | Some end_pos \<Rightarrow>
          let properties_content = slice content (match_end - 1) (end_pos - 1);
              properties_items = split_items (butlast (tl properties_content))
          in take start_pos content @ new_calls properties_items @ drop end_pos content)"

text \<open>Lines 43 to 108: the matches are found first and handled from the last to the first.\<close>

definition fix_properties :: "string \<Rightarrow> string" where
  "fix_properties content =
     fold fix_properties_at (rev (finditer (literal_pattern ''.properties(['') 0 content)) content"

section \<open>Script A, rule 6: the builder chains\<close>

text \<open>
  Lines 131 to 142: the scan of the chain behind \<open>NodeProperty::builder()\<close>.  The text
  is the part of \<open>content\<close> from \<open>pos\<close> on; the result is the position at which the
  loop stops.  \<open>dot_chain\<close> stays true.
\<close>

fun scan_chain :: "string \<Rightarrow> int \<Rightarrow> nat \<Rightarrow> nat" where
  "scan_chain [] paren_count pos = pos"
| "scan_chain (c # cs) paren_count pos =
     (if c = CHR ''('' then scan_chain cs (paren_count + 1) (pos + 1)
      else if c = CHR '')'' then scan_chain cs (paren_count - 1) (pos + 1)
      else if c = CHR ''.'' \<and> paren_count = 0 then scan_chain cs paren_count (pos + 1)
      else if c \<in> set '',;}]'' \<and> paren_count = 0 then pos
      else scan_chain cs paren_count (pos + 1))"

definition fix_builder_at :: "nat \<times> nat \<times> unit \<Rightarrow> string \<Rightarrow> string" where
  "fix_builder_at mt content =
     (let start_pos = fst (snd mt);
          pos = scan_chain (drop start_pos content) 0 start_pos;
          chain_content = slice content start_pos pos
      in if \<not> sublist ''.build()'' chain_content
         then take pos content @ ''.build()'' @ drop pos content
         else content)"

definition fix_builders :: "string \<Rightarrow> string" where
  "fix_builders content =
     fold fix_builder_at (rev (finditer (literal_pattern ''NodeProperty::builder()'') 0 content)) content"

section \<open>Script A: the eight rules in order\<close>

definition fix_version :: "string \<Rightarrow> string" where
  "fix_version content = re_sub version_pattern (\<lambda>g. []) content"

definition fix_inputs :: "string \<Rightarrow> string" where
  "fix_inputs content =
     re_sub (list_call_pattern ''inputs'') (\<lambda>g. ''.add_input('' @ strip g @ '')'') content"

definition fix_outputs :: "string \<Rightarrow> string" where
  "fix_outputs content =
     re_sub (list_call_pattern ''outputs'') (\<lambda>g. ''.add_output('' @ strip g @ '')'') content"

definition fix_kind_options :: "string \<Rightarrow> string" where
  "fix_kind_options content =
     re_sub kind_options_pattern
       (\<lambda>g. ''NodePropertyKindOptions::builder()'' @ g @ ''.build()'') content"

definition fix_base :: "string \<Rightarrow> string" where
  "fix_base content = re_sub base_pattern (\<lambda>g. ''let definition = base;'') content"

definition fix_new_at :: "nat \<times> nat \<times> string \<times> string \<Rightarrow> string \<Rightarrow> string" where
  "fix_new_at mt content =
     (let node_type = fst (snd (snd mt)); display_name = snd (snd (snd mt));
          new_call = ''NodeDefinition::new('' @ [CHR 0x22] @ node_type @ [CHR 0x22] @ '', ''
                     @ [CHR 0x22] @ display_name @ [CHR 0x22] @ '', Version::new(1, 0, 0))''
      in take (fst mt) content @ new_call @ drop (fst (snd mt)) content)"

definition fix_new :: "string \<Rightarrow> string" where
  "fix_new content = fold fix_new_at (rev (finditer new_pattern 0 content)) content"

text \<open>Lines 18 to 167: from the text read to the text compared with it.\<close>

definition fix_content :: "string \<Rightarrow> string" where
  "fix_content content =
     fix_new (fix_base (fix_builders (fix_kind_options (fix_properties
       (fix_outputs (fix_inputs (fix_version content)))))))"

section \<open>Script A: the file\<close>

text \<open>
  The files are a map from paths to the text that reading returns.  Opening a missing
  file for reading and opening a protected file for writing raise \<open>OSError\<close>; the
  lines printed so far stay printed.  \<open>written\<close> lists the paths opened for writing.
\<close>

record 'c filesystem =
  files :: "string \<rightharpoonup> 'c"
  protected :: "string set"
  written :: "string list"

datatype fix_message = Fixing string | Fixed string | NothingToFix string

datatype fix_result = Returned bool | Raised_OSError

definition fix_node_definition_file ::
  "string \<Rightarrow> string filesystem \<Rightarrow> fix_result \<times> fix_message list \<times> string filesystem" where
  "fix_node_definition_file file_path fs =
     (case files fs file_path of
        None \<Rightarrow> (Raised_OSError, [Fixing file_path], fs)
      | Some original_content \<Rightarrow>
          let content = fix_content original_content in
          if content \<noteq> original_content then
            (if file_path \<in> protected fs then (Raised_OSError, [Fixing file_path], fs)
             else (Returned True, [Fixing file_path, Fixed file_path],
                   fs\<lparr>files := (files fs)(file_path \<mapsto> content),
                      written := written fs @ [file_path]\<rparr>))
          else (Returned False, [Fixing file_path, NothingToFix file_path], fs))"

section \<open>Script A: the notions of the specification\<close>

text \<open>
  The nesting depth of a text with respect to a pair of brackets: the opening ones
  minus the closing ones.  A comma of a text is at the top level when both depths of
  the text before it are zero.
\<close>

definition depth :: "char \<Rightarrow> char \<Rightarrow> string \<Rightarrow> int" where
  "depth opn cls s = int (count_list s opn) - int (count_list s cls)"

definition top_level_comma :: "string \<Rightarrow> nat \<Rightarrow> bool" where
  "top_level_comma s i \<longleftrightarrow> s ! i = CHR '','' \<and>
     depth CHR ''['' CHR '']'' (take i s) = 0 \<and> depth CHR ''('' CHR '')'' (take i s) = 0"

definition first_top_level_comma :: "string \<Rightarrow> nat option" where
  "first_top_level_comma s = find (top_level_comma s) [0..<length s]"

text \<open>The same for a loop that has reached the text with the counters \<open>bc\<close> and \<open>pc\<close>.\<close>

definition sep_at :: "int \<Rightarrow> int \<Rightarrow> string \<Rightarrow> nat \<Rightarrow> bool" where
  "sep_at bc pc cs i \<longleftrightarrow> cs ! i = CHR '','' \<and>
     bc + depth CHR ''['' CHR '']'' (take i cs) = 0 \<and>
     pc + depth CHR ''('' CHR '')'' (take i cs) = 0"

text \<open>
  A pattern occurs in a text when it matches at some position of it.  The targeted call
  patterns are the patterns of the eight rules.
\<close>

definition occurs :: "'g matcher \<Rightarrow> string \<Rightarrow> bool" where
  "occurs m s = list_ex (\<lambda>k. m (drop k s) \<noteq> None) [0..<length s]"

definition has_target :: "string \<Rightarrow> bool" where
  "has_target s \<longleftrightarrow>
     occurs version_pattern s \<or>
     occurs (list_call_pattern ''inputs'') s \<or>
     occurs (list_call_pattern ''outputs'') s \<or>
     occurs (literal_pattern ''.properties(['') s \<or>
     occurs kind_options_pattern s \<or>
     occurs (literal_pattern ''NodeProperty::builder()'') s \<or>
     occurs base_pattern s \<or>
     occurs new_pattern s"

text \<open>The positions of a text at which a pattern matches.\<close>

definition match_positions :: "'g matcher \<Rightarrow> string \<Rightarrow> nat list" where
  "match_positions m s = filter (\<lambda>k. m (drop k s) \<noteq> None) [0..<length s]"



fun join_items :: "string list \<Rightarrow> string" where
  "join_items [] = []"
| "join_items [x] = x"
| "join_items (x # y # zs) = x @ '','' @ join_items (y # zs)"




text \<open>
  The end of the chain behind a constructor invocation, as the specification describes
  the scan: the first of the characters \<open>, ; } ]\<close> at parenthesis depth zero, or the end
  of the text.  \<open>with_build\<close> is the text the scan-based rule yields for the invocation
  \<open>call\<close> between \<open>pre\<close> and \<open>r\<close>: \<open>.build()\<close> is put at the end of the chain unless the
  chain contains it.
\<close>

definition stop_at :: "int \<Rightarrow> string \<Rightarrow> nat \<Rightarrow> bool" where
  "stop_at pc r k \<longleftrightarrow> r ! k \<in> set '',;}]'' \<and> pc + depth CHR ''('' CHR '')'' (take k r) = 0"

definition chain_end :: "string \<Rightarrow> nat" where
  "chain_end r = (case find (stop_at 0 r) [0..<length r] of None \<Rightarrow> length r | Some k \<Rightarrow> k)"

definition with_build :: "string \<Rightarrow> string \<Rightarrow> string \<Rightarrow> string" where
  "with_build pre call r =
     (let k = chain_end r in
      if sublist ''.build()'' (take k r) then pre @ call @ r
      else pre @ call @ take k r @ ''.build()'' @ drop k r)"

text \<open>
  What rule 5 looks for behind its invocation instead: the first position, not behind
  a dot, from which the text continues with optional whitespace and a comma or a
  closing parenthesis.
\<close>

definition lazy_run :: "string \<Rightarrow> nat option" where
  "lazy_run r =
     find (\<lambda>k. lookahead_sep (drop k r)) [0..<Suc (length (takeWhile (\<lambda>c. c \<noteq> CHR ''.'') r))]"

definition with_build_regex :: "string \<Rightarrow> string \<Rightarrow> string \<Rightarrow> string" where
  "with_build_regex pre call r =
     (case lazy_run r of
        None \<Rightarrow> pre @ call @ r
      | Some k \<Rightarrow> pre @ call @ take k r @ ''.build()'' @ drop k r)"

text \<open>
  A text with several calls.  A call is written with the text before it, its items and
  what may stand between the last item and the closing bracket: nothing, or a trailing
  comma and whitespace.  \<open>call_starts\<close> lists the positions at which the calls of a
  text begin, the first call text beginning at position \<open>n\<close>.
\<close>

type_synonym properties_call = "string \<times> string list \<times> string"



definition call_text :: "properties_call \<Rightarrow> string" where
  "call_text c =
     fst c @ ''.properties(['' @ join_items (fst (snd c)) @ snd (snd c) @ ''])''"


fun call_starts :: "nat \<Rightarrow> properties_call list \<Rightarrow> nat list" where
  "call_starts n [] = []"
| "call_starts n (c # cs) = (n + length (fst c)) # call_starts (n + length (call_text c)) cs"


section \<open>The splitting of a property list\<close>

lemma find_map_shift: "find P (map f xs) = map_option f (find (\<lambda>x. P (f x)) xs)"
  by (induction xs) auto

lemma find_upt_Suc:
  "find P [0..<Suc n] = (if P 0 then Some 0 else map_option Suc (find (\<lambda>i. P (Suc i)) [0..<n]))"
proof -
  have "[0..<Suc n] = 0 # map Suc [0..<n]"
    by (simp add: upt_conv_Cons map_Suc_upt del: upt_Suc)
  then show ?thesis by (simp add: find_map_shift del: upt_Suc)
qed

lemma split_loop_acc:
  "split_loop cs bc pc cur items = items @ split_loop cs bc pc cur []"
proof (induction cs arbitrary: bc pc cur items)
  case Nil show ?case by simp
next
  case (Cons c cs)
  note IH = Cons.IH
  show ?case
    by (simp add: IH[of _ _ _ "items @ [strip cur]"] IH[of _ _ _ "[strip cur]"] IH[of _ _ _ items])
qed

lemma sep_at_0: "sep_at bc pc (c # cs) 0 \<longleftrightarrow> c = CHR '','' \<and> bc = 0 \<and> pc = 0"
  by (simp add: sep_at_def depth_def)

lemma sep_at_Suc:
  "sep_at bc pc (c # cs) (Suc i) =
     sep_at (bc + (if c = CHR ''['' then 1 else if c = CHR '']'' then - 1 else 0))
            (pc + (if c = CHR ''('' then 1 else if c = CHR '')'' then - 1 else 0)) cs i"
  by (auto simp: sep_at_def depth_def)

lemma find_sep_Cons:
  "find (sep_at bc pc (c # cs)) [0..<length (c # cs)] =
     (if c = CHR '','' \<and> bc = 0 \<and> pc = 0 then Some 0
      else map_option Suc (find (sep_at
            (bc + (if c = CHR ''['' then 1 else if c = CHR '']'' then - 1 else 0))
            (pc + (if c = CHR ''('' then 1 else if c = CHR '')'' then - 1 else 0)) cs)
              [0..<length cs]))"
  unfolding length_Cons find_upt_Suc sep_at_0 sep_at_Suc ..

text \<open>
  The loop with its counters against the depths counted on the text: from a state with
  the counters \<open>bc\<close> and \<open>pc\<close> the loop collects up to the first comma at which both
  are back at zero.
\<close>

lemma split_loop_first:
  "split_loop cs bc pc cur [] =
     (case find (sep_at bc pc cs) [0..<length cs] of
        None \<Rightarrow> (if strip (cur @ cs) = [] then [] else [strip (cur @ cs)])
      | Some i \<Rightarrow> strip (cur @ take i cs) # split_loop (drop (Suc i) cs) 0 0 [] [])"
proof (induction cs arbitrary: bc pc cur)
  case Nil show ?case by simp
next
  case (Cons c cs)
  note IH = Cons.IH
  consider (ob) "c = CHR ''[''" | (cb) "c = CHR '']''" | (op) "c = CHR ''(''" | (cp) "c = CHR '')''"
    | (sep) "c = CHR '',''" "bc = 0 \<and> pc = 0"
    | (other) "c \<noteq> CHR ''[''" "c \<noteq> CHR '']''" "c \<noteq> CHR ''(''" "c \<noteq> CHR '')''"
        "\<not> (c = CHR '','' \<and> bc = 0 \<and> pc = 0)"
    by blast
  then show ?case
  proof cases
    case ob
    show ?thesis unfolding find_sep_Cons using ob
      by (simp add: IH split: option.splits del: upt_Suc)
  next
    case cb
    show ?thesis unfolding find_sep_Cons using cb
      by (simp add: IH split: option.splits del: upt_Suc)
  next
    case op
    show ?thesis unfolding find_sep_Cons using op
      by (simp add: IH split: option.splits del: upt_Suc)
  next
    case cp
    show ?thesis unfolding find_sep_Cons using cp
      by (simp add: IH split: option.splits del: upt_Suc)
  next
    case sep
    show ?thesis unfolding find_sep_Cons using sep
      by (simp add: split_loop_acc[of _ _ _ _ "[strip cur]"] del: upt_Suc)
  next
    case other
    have step: "split_loop (c # cs) bc pc cur [] = split_loop cs bc pc (cur @ [c]) []"
      using other by auto
    have fnd: "find (sep_at bc pc (c # cs)) [0..<length (c # cs)] =
        map_option Suc (find (sep_at bc pc cs) [0..<length cs])"
      unfolding find_sep_Cons using other by auto
    show ?thesis unfolding step fnd
      by (simp add: IH split: option.splits del: upt_Suc)
  qed
qed

text \<open>
  Claim C2.  In the splitting of the argument list of \<open>.properties([...])\<close> only a comma
  at depth zero of both \<open>[...]\<close> and \<open>(...)\<close> separates two items: the first item ends at
  the first top-level comma of the text and the splitting goes on behind that comma; a
  text without a top-level comma, whatever commas it has inside brackets or
  parentheses, is one item (or none when it is blank).
\<close>

theorem split_items_top_level:
  "split_items s =
     (case first_top_level_comma s of
        None \<Rightarrow> (if strip s = [] then [] else [strip s])
      | Some i \<Rightarrow> strip (take i s) # split_items (drop (Suc i) s))"
proof -
  have "sep_at 0 0 s = top_level_comma s"
    by (rule ext) (simp add: sep_at_def top_level_comma_def)
  then show ?thesis
    unfolding split_items_def first_top_level_comma_def
    using split_loop_first[of s 0 0 "[]"] by (simp split: option.splits)
qed

section \<open>Texts without a match\<close>

lemma occurs_Nil: "\<not> occurs m []"
  by (simp add: occurs_def)

lemma list_ex_map_shift: "list_ex P (map f xs) = list_ex (\<lambda>x. P (f x)) xs"
  by (induction xs) simp_all

lemma occurs_Cons: "occurs m (c # cs) \<longleftrightarrow> m (c # cs) \<noteq> None \<or> occurs m cs"
proof -
  have "[0..<length (c # cs)] = 0 # map Suc [0..<length cs]"
    by (simp add: upt_conv_Cons map_Suc_upt del: upt_Suc)
  then have "occurs m (c # cs) =
      list_ex (\<lambda>k. m (drop k (c # cs)) \<noteq> None) (0 # map Suc [0..<length cs])"
    unfolding occurs_def by (rule arg_cong)
  also have "\<dots> = (m (c # cs) \<noteq> None \<or> occurs m cs)"
    unfolding occurs_def by (simp add: list_ex_map_shift del: upt_Suc)
  finally show ?thesis .
qed

lemma not_occurs_Cons: "\<not> occurs m (c # cs) \<Longrightarrow> m (c # cs) = None \<and> \<not> occurs m cs"
  using occurs_Cons[of m c cs] by blast

lemma re_sub_no_match: "\<not> occurs m s \<Longrightarrow> re_sub m repl s = s"
proof (induction s)
  case Nil show ?case by simp
next
  case (Cons c cs)
  from not_occurs_Cons[OF Cons.prems] Cons.IH show ?case by simp
qed

lemma finditer_no_match: "\<not> occurs m s \<Longrightarrow> finditer m pos s = []"
proof (induction s arbitrary: pos)
  case Nil show ?case by simp
next
  case (Cons c cs)
  from not_occurs_Cons[OF Cons.prems] Cons.IH show ?case by simp
qed

lemma fix_content_no_target: "\<not> has_target s \<Longrightarrow> fix_content s = s"
  by (simp add: has_target_def fix_content_def fix_version_def fix_inputs_def fix_outputs_def
      fix_properties_def fix_kind_options_def fix_builders_def fix_base_def fix_new_def
      re_sub_no_match finditer_no_match)

text \<open>
  Claim C6.  For a file whose text has no occurrence of any of the targeted call
  patterns, the transformation is the identity, nothing is written and
  \<open>fix_node_definition_file\<close> returns \<open>False\<close>; and for every file that is read, the file
  system changes only when the final text differs from the text read, and then by the
  one write of the final text to that path.
\<close>

theorem fix_file_without_target:
  assumes "files fs file_path = Some content"
  shows "(\<not> has_target content \<longrightarrow>
            fix_content content = content \<and>
            fix_node_definition_file file_path fs =
              (Returned False, [Fixing file_path, NothingToFix file_path], fs)) \<and>
         (snd (snd (fix_node_definition_file file_path fs)) \<noteq> fs \<longrightarrow>
            fix_content content \<noteq> content \<and>
            snd (snd (fix_node_definition_file file_path fs)) =
              fs\<lparr>files := (files fs)(file_path \<mapsto> fix_content content),
                 written := written fs @ [file_path]\<rparr>)"
  using assms fix_content_no_target[of content]
  by (auto simp: fix_node_definition_file_def Let_def)

theorem fix_file_without_target_witness:
  "\<not> has_target ''fn main() { let v = [1, 2]; }'' \<and>
   fix_content ''fn main() { let v = [1, 2]; }'' = ''fn main() { let v = [1, 2]; }'' \<and>
   fix_node_definition_file ''a.rs''
       \<lparr>files = [''a.rs'' \<mapsto> ''fn main() { let v = [1, 2]; }''], protected = {}, written = []\<rparr> =
     (Returned False, [Fixing ''a.rs'', NothingToFix ''a.rs''],
      \<lparr>files = [''a.rs'' \<mapsto> ''fn main() { let v = [1, 2]; }''], protected = {}, written = []\<rparr>) \<and>
   fix_content ''x.version(1)'' \<noteq> ''x.version(1)'' \<and>
   written (snd (snd (fix_node_definition_file ''b.rs''
       \<lparr>files = [''b.rs'' \<mapsto> ''x.version(1)''], protected = {}, written = []\<rparr>))) = [''b.rs'']"
proof -
  have nt: "\<not> has_target ''fn main() { let v = [1, 2]; }''"
    by code_simp
  have f1: "files \<lparr>files = [''a.rs'' \<mapsto> ''fn main() { let v = [1, 2]; }''],
      protected = {}, written = []\<rparr> ''a.rs'' = Some ''fn main() { let v = [1, 2]; }''"
    by simp
  have f2: "files \<lparr>files = [''b.rs'' \<mapsto> ''x.version(1)''], protected = {}, written = []\<rparr>
      ''b.rs'' = Some ''x.version(1)''"
    by simp
  have ch: "fix_content ''x.version(1)'' = ''x''"
    by code_simp
  have ne: "snd (snd (fix_node_definition_file ''b.rs''
       \<lparr>files = [''b.rs'' \<mapsto> ''x.version(1)''], protected = {}, written = []\<rparr>)) \<noteq>
       \<lparr>files = [''b.rs'' \<mapsto> ''x.version(1)''], protected = {}, written = []\<rparr>"
    by (simp add: fix_node_definition_file_def ch)
  from fix_file_without_target[OF f1] nt fix_file_without_target[OF f2] ne ch
  show ?thesis by simp
qed

section \<open>The list calls of rules 2 and 3\<close>

text \<open>
  Claim C3.  The code at the input \<open>.inputs([A, B])\<close>, and at \<open>.outputs([A, B])\<close>: the
  whole list becomes the argument of one call; the items are not separated.
\<close>

theorem list_call_keeps_items_together:
  "fix_content ''.inputs([A, B])'' = ''.add_input(A, B)'' \<and>
   fix_content ''.outputs([A, B])'' = ''.add_output(A, B)''"
  by code_simp

section \<open>Rule 4 on a list of items\<close>






lemma depth_append: "depth a b (xs @ ys) = depth a b xs + depth a b ys"
  by (simp add: depth_def)















lemma match_positions_Cons:
  "match_positions m (c # cs) =
     (if m (c # cs) \<noteq> None then [0] else []) @ map Suc (match_positions m cs)"
proof -
  have "[0..<length (c # cs)] = 0 # map Suc [0..<length cs]"
    by (simp add: upt_conv_Cons map_Suc_upt del: upt_Suc)
  then show ?thesis
    unfolding match_positions_def by (simp add: filter_map comp_def del: upt_Suc)
qed

lemma occurs_positions: "occurs m s \<longleftrightarrow> match_positions m s \<noteq> []"
  by (simp add: occurs_def match_positions_def list_ex_iff filter_empty_conv)

lemma occurs_drop: "occurs m (drop k s) \<Longrightarrow> occurs m s"
proof (induction s arbitrary: k)
  case Nil then show ?case by simp
next
  case (Cons c cs)
  show ?case
  proof (cases k)
    case 0 then show ?thesis using Cons.prems by simp
  next
    case (Suc j)
    then have "occurs m (drop j cs)" using Cons.prems by simp
    then show ?thesis using Cons.IH occurs_Cons by blast
  qed
qed

lemma finditer_single:
  "match_positions m s = [n] \<Longrightarrow>
   \<exists>g len. m (drop n s) = Some (g, len) \<and> finditer m pos s = [(pos + n, pos + n + len, g)]"
proof (induction s arbitrary: n pos)
  case Nil then show ?case by (simp add: match_positions_def)
next
  case (Cons c cs)
  show ?case
  proof (cases "m (c # cs)")
    case None
    then have "map Suc (match_positions m cs) = [n]"
      using Cons.prems by (simp add: match_positions_Cons)
    then obtain k where k: "match_positions m cs = [k]" "n = Suc k"
      by (cases "match_positions m cs") auto
    from Cons.IH[OF k(1), of "pos + 1"] None k(2) show ?thesis by simp
  next
    case (Some a)
    obtain g len where a: "a = (g, len)" by (cases a)
    from Some Cons.prems have "n = 0" "match_positions m cs = []"
      by (simp_all add: match_positions_Cons)
    then have "\<not> occurs m (drop (len - 1) cs)"
      using occurs_drop[of m "len - 1" cs] by (auto simp: occurs_positions)
    then have "finditer m (pos + len) (drop (len - 1) cs) = []"
      by (rule finditer_no_match)
    then show ?thesis using Some a \<open>n = 0\<close> by simp
  qed
qed



























lemma call_starts_ge: "p \<in> set (call_starts n cs) \<Longrightarrow> n \<le> p"
proof (induction cs arbitrary: n)
  case Nil then show ?case by simp
next
  case (Cons c cs)
  then show ?case by (auto dest!: Cons.IH)
qed











end
